theory Spec2Isabelle
  imports Complex_Main
begin

section \<open>Pagination window (getPageNumbers)\<close>

text \<open>
  Both list components (PostsList in src/App.jsx, CommentList in the CommentList file)
  contain the same closure:
  \<^verbatim>\<open>
  const getPageNumbers = () => {
    const pageNumbers = []
    const maxPagesToShow = 5
    let startPage = Math.max(1, currentPage - Math.floor(maxPagesToShow / 2))
    let endPage = Math.min(totalPages, startPage + maxPagesToShow - 1)
    if (endPage - startPage + 1 < maxPagesToShow) {
      startPage = Math.max(1, endPage - maxPagesToShow + 1)
    }
    for (let i = startPage; i <= endPage; i++) { pageNumbers.push(i) }
    return pageNumbers
  }
  \<close>
  The two free variables of the closure, \<open>currentPage\<close> and \<open>totalPages\<close>, are the
  parameters of the model. Page numbers are JavaScript numbers holding small integers;
  they are modelled as \<open>int\<close>.
\<close>

text \<open>The \<open>for\<close> loop: \<open>i\<close> runs from its start value up to \<open>endPage\<close>, pushing.\<close>

function pushPages :: "int \<Rightarrow> int \<Rightarrow> int list \<Rightarrow> int list" where
  "pushPages i endPage pageNumbers =
     (if i \<le> endPage then pushPages (i + 1) endPage (pageNumbers @ [i]) else pageNumbers)"
  by pat_completeness auto
termination
  by (relation "measure (\<lambda>(i, endPage, pageNumbers). nat (endPage + 1 - i))") auto

declare pushPages.simps [simp del]

text \<open>\<open>Math.floor(a / b)\<close> on a non-negative \<open>a\<close> and a positive \<open>b\<close>.\<close>

definition Math_floor_div :: "int \<Rightarrow> int \<Rightarrow> int" where
  "Math_floor_div a b = \<lfloor>real_of_int a / real_of_int b\<rfloor>"

definition maxPagesToShow :: int where
  "maxPagesToShow = 5"

definition getPageNumbers :: "int \<Rightarrow> int \<Rightarrow> int list" where
  "getPageNumbers currentPage totalPages =
     (let startPage = max 1 (currentPage - Math_floor_div maxPagesToShow 2);
          endPage = min totalPages (startPage + maxPagesToShow - 1);
          startPage = (if endPage - startPage + 1 < maxPagesToShow
                       then max 1 (endPage - maxPagesToShow + 1) else startPage)
      in pushPages startPage endPage [])"

text \<open>
  The window as section 4.2 of the specification words it, with the window size a
  parameter: the four numbered steps, emitting the closed range.
\<close>

definition window_spec :: "int \<Rightarrow> int \<Rightarrow> int \<Rightarrow> int list" where
  "window_spec currentPage totalPages windowSize =
     (let start = max 1 (currentPage - windowSize div 2);
          end' = min totalPages (start + windowSize - 1);
          start = (if end' - start + 1 < windowSize
                   then max 1 (end' - windowSize + 1) else start)
      in [start..end'])"

text \<open>A list of integers is contiguous when each element is its predecessor plus one.\<close>

fun contiguous :: "int list \<Rightarrow> bool" where
  "contiguous [] = True"
| "contiguous [x] = True"
| "contiguous (x # y # ys) = (y = x + 1 \<and> contiguous (y # ys))"

section \<open>JavaScript helpers\<close>

text \<open>\<open>Math.ceil(a / b)\<close>, as used for the number of pages.\<close>

definition Math_ceil_div :: "int \<Rightarrow> int \<Rightarrow> int" where
  "Math_ceil_div a b = \<lceil>real_of_int a / real_of_int b\<rceil>"

text \<open>
  The text a template literal \<^verbatim>\<open>${n}\<close> or a JSX expression \<^verbatim>\<open>{n}\<close> produces for an
  integer-valued number: its decimal digits, with a minus sign when negative.
\<close>

fun digits :: "nat \<Rightarrow> string" where
  "digits n = (if n < 10 then [''0123456789'' ! n]
               else digits (n div 10) @ [''0123456789'' ! (n mod 10)])"

declare digits.simps [simp del]

definition String_of :: "int \<Rightarrow> string" where
  "String_of n = (if n < 0 then CHR ''-'' # digits (nat (- n)) else digits (nat n))"

text \<open>
  \<open>Array.prototype.slice(start, end)\<close>: a negative index counts from the end, both
  indices are clamped into \<open>[0, length]\<close>, and an empty interval gives the empty array.
\<close>

definition Array_slice :: "'a list \<Rightarrow> int \<Rightarrow> int \<Rightarrow> 'a list" where
  "Array_slice xs start end' =
     (let len = int (length xs);
          k = (if start < 0 then max (len + start) 0 else min start len);
          final = (if end' < 0 then max (len + end') 0 else min end' len)
      in take (nat (final - k)) (drop (nat k) xs))"

section \<open>The remote API\<close>

text \<open>The records of the two collection endpoints, with the fields the components read.\<close>

record post =
  post_id :: int
  post_title :: string
  post_body :: string
  post_userId :: int

record comment =
  comment_id :: int
  comment_email :: string
  comment_body :: string

text \<open>
  A request is the URL handed to \<open>fetch\<close> (always a GET). A response is what the code
  reads of it: \<open>response.ok\<close>, \<open>response.status\<close> and the outcome of
  \<open>response.json()\<close>, which either yields the parsed data or rejects with an error
  (\<open>Inl\<close> its message). The promise returned by \<open>fetch\<close> is either rejected by a
  transport failure (carrying the message of the error) or fulfilled with a response.
\<close>

type_synonym request = string

record 'a response =
  ok :: bool
  status :: int
  json :: "string + 'a"

datatype 'a settled = Rejected string | Fulfilled "'a response"

definition posts_url :: request where
  "posts_url = ''https://jsonplaceholder.typicode.com/posts''"

definition comments_url :: "int \<Rightarrow> int \<Rightarrow> request" where
  "comments_url start limit =
     ''https://jsonplaceholder.typicode.com/comments?_start='' @ String_of start
       @ ''&_limit='' @ String_of limit"

section \<open>Events and rendered output\<close>

text \<open>
  What the user can trigger through an \<open>onClick\<close> handler, and what happens to a mounted
  component: it is mounted, the user activates a control, or a pending \<open>fetch\<close> settles.
\<close>

datatype action = GoToPage int | GoToPreviousPage | GoToNextPage | Refresh

datatype 'a event = Mount | User action | Settle "'a settled"

text \<open>
  An event is a navigation when the user activates a pagination control; it asks for a
  fetch by itself when the component is mounted or the user activates a refresh or retry
  button.
\<close>

fun is_navigation :: "'a event \<Rightarrow> bool" where
  "is_navigation (User (GoToPage _)) = True"
| "is_navigation (User GoToPreviousPage) = True"
| "is_navigation (User GoToNextPage) = True"
| "is_navigation _ = False"

fun refetches :: "'a event \<Rightarrow> bool" where
  "refetches Mount = True"
| "refetches (User Refresh) = True"
| "refetches _ = False"


text \<open>
  The rendered output is the sequence of visible elements: the spinner with its caption,
  the danger alert with heading and message, the header with title and summary line, a
  button with its label, its \<open>disabled\<close> flag and its \<open>onClick\<close> handler, one card per
  item, the ellipsis of the pagination bar, and the notice shown for an empty list.
  The markup inside a card is not modelled.
\<close>

datatype 'a node =
    Spinner string
  | Alert string string
  | Header string string
  | Button string bool action
  | Item 'a
  | Ellipsis
  | Notice string

text \<open>
  The pagination bar, the same markup in both components. \<open>getPageNumbers()[0]\<close> and
  \<open>getPageNumbers()[getPageNumbers().length - 1]\<close> are \<open>undefined\<close> on an empty array,
  and every comparison with \<open>undefined\<close> is false.
\<close>

definition pagination :: "int \<Rightarrow> int \<Rightarrow> 'a node list" where
  "pagination currentPage totalPages =
     (let pages = getPageNumbers currentPage totalPages in
      [Button ''Anterior'' (currentPage = 1) GoToPreviousPage]
      @ (if pages \<noteq> [] \<and> hd pages > 1
         then [Button ''1'' False (GoToPage 1)] @ (if hd pages > 2 then [Ellipsis] else [])
         else [])
      @ map (\<lambda>pageNumber. Button (String_of pageNumber) False (GoToPage pageNumber)) pages
      @ (if pages \<noteq> [] \<and> last pages < totalPages
         then (if last pages < totalPages - 1 then [Ellipsis] else [])
              @ [Button (String_of totalPages) False (GoToPage totalPages)]
         else [])
      @ [Button ''Siguiente'' (currentPage = totalPages) GoToNextPage])"

text \<open>Which of the three views a rendered output shows.\<close>

fun is_Spinner :: "'a node \<Rightarrow> bool" where
  "is_Spinner (Spinner _) = True"
| "is_Spinner _ = False"

fun is_Alert :: "'a node \<Rightarrow> bool" where
  "is_Alert (Alert _ _) = True"
| "is_Alert _ = False"

fun is_list_content :: "'a node \<Rightarrow> bool" where
  "is_list_content (Header _ _) = True"
| "is_list_content (Item _) = True"
| "is_list_content Ellipsis = True"
| "is_list_content (Notice _) = True"
| "is_list_content (Button _ _ a) = (a \<noteq> Refresh)"
| "is_list_content _ = False"

definition shows_loading :: "'a node list \<Rightarrow> bool" where
  "shows_loading v = list_ex is_Spinner v"

definition shows_error :: "'a node list \<Rightarrow> bool" where
  "shows_error v = list_ex is_Alert v"

definition shows_list :: "'a node list \<Rightarrow> bool" where
  "shows_list v = list_ex is_list_content v"

definition active_views :: "'a node list \<Rightarrow> nat" where
  "active_views v = length (filter id [shows_loading v, shows_error v, shows_list v])"

section \<open>PostsList: client-side pagination\<close>

text \<open>The four \<open>useState\<close> cells of the component.\<close>

record PostsList =
  allPosts :: "post list"
  currentPage :: int
  loading :: bool
  error :: "string option"

definition PostsList_init :: PostsList where
  "PostsList_init =
     \<lparr>allPosts = [], PostsList.currentPage = 1, PostsList.loading = True,
      PostsList.error = None\<rparr>"

definition postsPerPage :: int where
  "postsPerPage = 10"

definition indexOfLastPost :: "PostsList \<Rightarrow> int" where
  "indexOfLastPost s = PostsList.currentPage s * postsPerPage"

definition indexOfFirstPost :: "PostsList \<Rightarrow> int" where
  "indexOfFirstPost s = indexOfLastPost s - postsPerPage"

definition currentPosts :: "PostsList \<Rightarrow> post list" where
  "currentPosts s = Array_slice (allPosts s) (indexOfFirstPost s) (indexOfLastPost s)"

definition PostsList_totalPages :: "PostsList \<Rightarrow> int" where
  "PostsList_totalPages s = Math_ceil_div (int (length (allPosts s))) postsPerPage"

text \<open>
  \<open>fetchPosts\<close> is an async function. Up to its first \<open>await\<close> it sets \<open>loading\<close>,
  clears \<open>error\<close> and issues the request (\<open>fetchPosts_begin\<close>). When the promise
  settles, the rest of the \<open>try\<close> block either throws (\<open>Inl\<close> the message of the error)
  or yields the parsed data (\<open>fetchPosts_try\<close>); then the success path, the \<open>catch\<close>
  branch and the \<open>finally\<close> branch update the state (\<open>fetchPosts_settle\<close>).
\<close>

definition fetchPosts_begin :: "PostsList \<Rightarrow> PostsList \<times> request list" where
  "fetchPosts_begin s = (s\<lparr>PostsList.loading := True, PostsList.error := None\<rparr>, [posts_url])"

definition fetchPosts_try :: "post list settled \<Rightarrow> string + post list" where
  "fetchPosts_try r =
     (case r of
        Rejected message \<Rightarrow> Inl message
      | Fulfilled response \<Rightarrow>
          if \<not> ok response then Inl (''Error: '' @ String_of (status response))
          else json response)"

definition fetchPosts_settle :: "post list settled \<Rightarrow> PostsList \<Rightarrow> PostsList" where
  "fetchPosts_settle r s =
     (case fetchPosts_try r of
        Inr data \<Rightarrow> s\<lparr>allPosts := data, PostsList.currentPage := 1, PostsList.loading := False\<rparr>
      | Inl message \<Rightarrow> s\<lparr>PostsList.error := Some message, PostsList.loading := False\<rparr>)"

text \<open>One whole call of \<open>fetchPosts\<close> whose promise settles with \<open>r\<close>.\<close>

definition fetchPosts :: "post list settled \<Rightarrow> PostsList \<Rightarrow> PostsList \<times> request list" where
  "fetchPosts r s = (let (s', requests) = fetchPosts_begin s in (fetchPosts_settle r s', requests))"

definition PostsList_handleRefresh :: "PostsList \<Rightarrow> PostsList \<times> request list" where
  "PostsList_handleRefresh s = fetchPosts_begin s"

definition PostsList_goToPage :: "int \<Rightarrow> PostsList \<Rightarrow> PostsList" where
  "PostsList_goToPage pageNumber s = s\<lparr>PostsList.currentPage := pageNumber\<rparr>"

definition PostsList_goToPreviousPage :: "PostsList \<Rightarrow> PostsList" where
  "PostsList_goToPreviousPage s =
     (if PostsList.currentPage s > 1
      then s\<lparr>PostsList.currentPage := PostsList.currentPage s - 1\<rparr> else s)"

definition PostsList_goToNextPage :: "PostsList \<Rightarrow> PostsList" where
  "PostsList_goToNextPage s =
     (if PostsList.currentPage s < PostsList_totalPages s
      then s\<lparr>PostsList.currentPage := PostsList.currentPage s + 1\<rparr> else s)"

text \<open>
  One event of the mounted component, returning the new state and the requests issued.
  The effect \<^verbatim>\<open>useEffect(() => { fetchPosts() }, [])\<close> has an empty dependency list: it
  runs at mount and never again.
\<close>

fun PostsList_handle :: "action \<Rightarrow> PostsList \<Rightarrow> PostsList \<times> request list" where
  "PostsList_handle (GoToPage pageNumber) s = (PostsList_goToPage pageNumber s, [])"
| "PostsList_handle GoToPreviousPage s = (PostsList_goToPreviousPage s, [])"
| "PostsList_handle GoToNextPage s = (PostsList_goToNextPage s, [])"
| "PostsList_handle Refresh s = PostsList_handleRefresh s"

fun PostsList_step :: "post list event \<Rightarrow> PostsList \<Rightarrow> PostsList \<times> request list" where
  "PostsList_step Mount s = fetchPosts_begin s"
| "PostsList_step (User a) s = PostsList_handle a s"
| "PostsList_step (Settle r) s = (fetchPosts_settle r s, [])"

fun PostsList_run :: "post list event list \<Rightarrow> PostsList \<Rightarrow> PostsList \<times> request list" where
  "PostsList_run [] s = (s, [])"
| "PostsList_run (e # es) s =
     (let (s', requests) = PostsList_step e s;
          (s'', requests') = PostsList_run es s'
      in (s'', requests @ requests'))"

definition PostsList_list_view :: "PostsList \<Rightarrow> post node list" where
  "PostsList_list_view s =
     [Header ''Posts desde API''
        (''Mostrando '' @ String_of (indexOfFirstPost s + 1) @ ''-''
           @ String_of (min (indexOfLastPost s) (int (length (allPosts s))))
           @ '' de '' @ String_of (int (length (allPosts s))) @ '' posts''),
      Button ''Actualizar'' False Refresh]
     @ map Item (currentPosts s)
     @ (if PostsList_totalPages s > 1
        then pagination (PostsList.currentPage s) (PostsList_totalPages s) else [])
     @ (if length (allPosts s) = 0 \<and> \<not> PostsList.loading s
        then [Notice ''No hay posts disponibles''] else [])"

text \<open>
  The three \<open>return\<close>s of the component body. \<open>if (error)\<close> tests truthiness: \<open>null\<close>
  and the empty string are both falsy.
\<close>

definition PostsList_render :: "PostsList \<Rightarrow> post node list" where
  "PostsList_render s =
     (if PostsList.loading s then [Spinner ''Cargando posts...'']
      else case PostsList.error s of
             None \<Rightarrow> PostsList_list_view s
           | Some message \<Rightarrow>
               if message \<noteq> []
               then [Alert ''Error al cargar posts'' message,
                     Button ''Intentar de nuevo'' False Refresh]
               else PostsList_list_view s)"

section \<open>CommentList: server-side pagination\<close>

record CommentList =
  comments :: "comment list"
  currentPage :: int
  loading :: bool
  error :: "string option"

definition CommentList_init :: CommentList where
  "CommentList_init =
     \<lparr>comments = [], CommentList.currentPage = 1, CommentList.loading = True,
      CommentList.error = None\<rparr>"

definition commentsPerPage :: int where
  "commentsPerPage = 10"

definition totalComments :: int where
  "totalComments = 500"

definition CommentList_totalPages :: int where
  "CommentList_totalPages = Math_ceil_div totalComments commentsPerPage"

text \<open>\<open>fetchComments(page)\<close>, split at its \<open>await\<close> like \<open>fetchPosts\<close>.\<close>

definition fetchComments_begin :: "int \<Rightarrow> CommentList \<Rightarrow> CommentList \<times> request list" where
  "fetchComments_begin page s =
     (let start = (page - 1) * commentsPerPage
      in (s\<lparr>CommentList.loading := True, CommentList.error := None\<rparr>,
          [comments_url start commentsPerPage]))"

definition fetchComments_try :: "comment list settled \<Rightarrow> string + comment list" where
  "fetchComments_try r =
     (case r of
        Rejected message \<Rightarrow> Inl message
      | Fulfilled response \<Rightarrow>
          if \<not> ok response then Inl (''Error: '' @ String_of (status response))
          else json response)"

definition fetchComments_settle :: "comment list settled \<Rightarrow> CommentList \<Rightarrow> CommentList" where
  "fetchComments_settle r s =
     (case fetchComments_try r of
        Inr data \<Rightarrow> s\<lparr>comments := data, CommentList.loading := False\<rparr>
      | Inl message \<Rightarrow> s\<lparr>CommentList.error := Some message, CommentList.loading := False\<rparr>)"

definition fetchComments ::
  "comment list settled \<Rightarrow> int \<Rightarrow> CommentList \<Rightarrow> CommentList \<times> request list" where
  "fetchComments r page s =
     (let (s', requests) = fetchComments_begin page s in (fetchComments_settle r s', requests))"

definition CommentList_handleRefresh :: "CommentList \<Rightarrow> CommentList \<times> request list" where
  "CommentList_handleRefresh s = fetchComments_begin (CommentList.currentPage s) s"

definition CommentList_goToPage :: "int \<Rightarrow> CommentList \<Rightarrow> CommentList" where
  "CommentList_goToPage pageNumber s =
     (if pageNumber \<ge> 1 \<and> pageNumber \<le> CommentList_totalPages
      then s\<lparr>CommentList.currentPage := pageNumber\<rparr> else s)"

definition CommentList_goToPreviousPage :: "CommentList \<Rightarrow> CommentList" where
  "CommentList_goToPreviousPage s =
     (if CommentList.currentPage s > 1
      then s\<lparr>CommentList.currentPage := CommentList.currentPage s - 1\<rparr> else s)"

definition CommentList_goToNextPage :: "CommentList \<Rightarrow> CommentList" where
  "CommentList_goToNextPage s =
     (if CommentList.currentPage s < CommentList_totalPages
      then s\<lparr>CommentList.currentPage := CommentList.currentPage s + 1\<rparr> else s)"

text \<open>
  The effect \<^verbatim>\<open>useEffect(() => { fetchComments(currentPage) }, [currentPage])\<close> runs at
  mount and after every render in which \<open>currentPage\<close> differs from its value at the
  previous render. \<open>CommentList_effect prev\<close> is the effect after an event that started
  in state \<open>prev\<close>.
\<close>

definition CommentList_effect ::
  "CommentList \<Rightarrow> CommentList \<times> request list \<Rightarrow> CommentList \<times> request list" where
  "CommentList_effect prev result =
     (let (s, requests) = result in
      if CommentList.currentPage s \<noteq> CommentList.currentPage prev
      then (let (s', requests') = fetchComments_begin (CommentList.currentPage s) s
            in (s', requests @ requests'))
      else (s, requests))"

fun CommentList_handle :: "action \<Rightarrow> CommentList \<Rightarrow> CommentList \<times> request list" where
  "CommentList_handle (GoToPage pageNumber) s = (CommentList_goToPage pageNumber s, [])"
| "CommentList_handle GoToPreviousPage s = (CommentList_goToPreviousPage s, [])"
| "CommentList_handle GoToNextPage s = (CommentList_goToNextPage s, [])"
| "CommentList_handle Refresh s = CommentList_handleRefresh s"

fun CommentList_step ::
  "comment list event \<Rightarrow> CommentList \<Rightarrow> CommentList \<times> request list" where
  "CommentList_step Mount s = fetchComments_begin (CommentList.currentPage s) s"
| "CommentList_step (User a) s = CommentList_effect s (CommentList_handle a s)"
| "CommentList_step (Settle r) s = CommentList_effect s (fetchComments_settle r s, [])"

fun CommentList_run ::
  "comment list event list \<Rightarrow> CommentList \<Rightarrow> CommentList \<times> request list" where
  "CommentList_run [] s = (s, [])"
| "CommentList_run (e # es) s =
     (let (s', requests) = CommentList_step e s;
          (s'', requests') = CommentList_run es s'
      in (s'', requests @ requests'))"

text \<open>The accented letter of the summary line is written as its two UTF-8 bytes.\<close>

definition CommentList_list_view :: "CommentList \<Rightarrow> comment node list" where
  "CommentList_list_view s =
     [Header ''Comentarios desde API''
        (''P'' @ [CHR 0xC3, CHR 0xA1] @ ''gina '' @ String_of (CommentList.currentPage s) @ '' de ''
           @ String_of CommentList_totalPages @ '' - Mostrando ''
           @ String_of (int (length (comments s))) @ '' comentarios''),
      Button ''Actualizar'' False Refresh]
     @ map Item (comments s)
     @ (if CommentList_totalPages > 1
        then pagination (CommentList.currentPage s) CommentList_totalPages else [])
     @ (if length (comments s) = 0 \<and> \<not> CommentList.loading s
        then [Notice ''No hay comentarios disponibles''] else [])"

definition CommentList_render :: "CommentList \<Rightarrow> comment node list" where
  "CommentList_render s =
     (if CommentList.loading s then [Spinner ''Cargando comentarios...'']
      else case CommentList.error s of
             None \<Rightarrow> CommentList_list_view s
           | Some message \<Rightarrow>
               if message \<noteq> []
               then [Alert ''Error al cargar comentarios'' message,
                     Button ''Intentar de nuevo'' False Refresh]
               else CommentList_list_view s)"

section \<open>App: the counter of the modal\<close>

record App =
  count :: int

definition App_init :: App where
  "App_init = \<lparr>count = 0\<rparr>"

text \<open>\<^verbatim>\<open>onClick={() => setCount(count + 1)}\<close> and \<^verbatim>\<open>onClick={() => setCount(0)}\<close>.\<close>

definition increment :: "App \<Rightarrow> App" where
  "increment s = s\<lparr>count := count s + 1\<rparr>"

definition reset :: "App \<Rightarrow> App" where
  "reset s = s\<lparr>count := 0\<rparr>"

text \<open>The text of \<^verbatim>\<open><strong>{count}</strong>\<close>.\<close>

definition display :: "App \<Rightarrow> string" where
  "display s = String_of (count s)"

section \<open>Facts about the pagination window\<close>

lemma Math_floor_div_eq: "Math_floor_div a b = a div b"
  unfolding Math_floor_div_def by (simp add: floor_divide_of_int_eq)

lemma pushPages_upto: "pushPages i e acc = acc @ [i..e]"
proof (induction i e acc rule: pushPages.induct)
  case (1 i e acc)
  show ?case
  proof (cases "i \<le> e")
    case True
    then have "pushPages i e acc = pushPages (i + 1) e (acc @ [i])"
      by (subst pushPages.simps) simp
    also have "\<dots> = (acc @ [i]) @ [i + 1..e]"
      using True "1.IH" by simp
    also have "\<dots> = acc @ [i..e]"
      using True by (simp add: upto_rec1)
    finally show ?thesis .
  next
    case False
    then show ?thesis
      by (subst pushPages.simps) simp
  qed
qed

lemma getPageNumbers_range:
  "getPageNumbers c t =
     (let s0 = max 1 (c - 2); e = min t (s0 + 4);
          s = (if e - s0 + 1 < 5 then max 1 (e - 4) else s0)
      in [s..e])"
  by (simp add: getPageNumbers_def Math_floor_div_eq maxPagesToShow_def pushPages_upto Let_def
      ac_simps)

lemma contiguous_upto: "contiguous [i..j]"
proof (induction i j rule: upto.induct)
  case (1 i j)
  show ?case
  proof (cases "i \<le> j")
    case outer: True
    show ?thesis
    proof (cases "i + 1 \<le> j")
      case True
      then have "[i..j] = i # (i + 1) # [i + 1 + 1..j]"
        using upto_rec1 [of i j] upto_rec1 [of "i + 1" j] by simp
      moreover have "contiguous [i + 1..j]"
        using outer "1.IH" by simp
      moreover have "[i + 1..j] = (i + 1) # [i + 1 + 1..j]"
        using True upto_rec1 [of "i + 1" j] by simp
      ultimately show ?thesis by simp
    next
      case False
      with outer have "j = i" by simp
      then show ?thesis by simp
    qed
  next
    case False
    then show ?thesis by simp
  qed
qed

text \<open>
  C1. For every \<open>totalPages \<ge> 1\<close> and every \<open>currentPage\<close> in \<open>[1, totalPages]\<close>,
  \<open>getPageNumbers\<close> (window size 5) returns a contiguous integer range of length
  \<open>min 5 totalPages\<close>, and the range contains \<open>currentPage\<close> whenever
  \<open>totalPages \<ge> 5\<close>.
\<close>

theorem getPageNumbers_window:
  assumes "1 \<le> tot" and "1 \<le> cur" and "cur \<le> tot"
  shows "contiguous (getPageNumbers cur tot)
       \<and> int (length (getPageNumbers cur tot)) = min maxPagesToShow tot
       \<and> (maxPagesToShow \<le> tot \<longrightarrow>
            cur \<in> set (getPageNumbers cur tot))"
proof -
  have c: "contiguous (getPageNumbers cur tot)"
    by (simp add: getPageNumbers_range Let_def contiguous_upto)
  have l: "int (length (getPageNumbers cur tot)) = min maxPagesToShow tot"
    using assms by (auto simp: getPageNumbers_range Let_def maxPagesToShow_def)
  have m: "maxPagesToShow \<le> tot \<longrightarrow>
             cur \<in> set (getPageNumbers cur tot)"
    using assms by (auto simp: getPageNumbers_range Let_def maxPagesToShow_def)
  from c l m show ?thesis by blast
qed

theorem getPageNumbers_window_witness:
  "getPageNumbers 7 50 = [5, 6, 7, 8, 9]
   \<and> contiguous (getPageNumbers 7 50)
   \<and> int (length (getPageNumbers 7 50)) = min maxPagesToShow 50
   \<and> 7 \<in> set (getPageNumbers 7 50)"
proof -
  have v: "getPageNumbers 7 50 = [5, 6, 7, 8, 9]"
    by (simp add: getPageNumbers_range Let_def upto_rec1)
  have "(1::int) \<le> 50" and "(1::int) \<le> 7" and "(7::int) \<le> 50"
    by simp_all
  from getPageNumbers_window [OF this] v show ?thesis
    by (simp add: maxPagesToShow_def)
qed

text \<open>
  C2. The calculator computes exactly the four-step algorithm of the specification:
  with window size 5 its output is the closed range \<open>[start, end]\<close> of
  \<open>window_spec\<close>. The equality holds for all integer arguments, in particular for
  every \<open>cur \<ge> 1\<close> and \<open>tot \<ge> 0\<close>.
\<close>

theorem getPageNumbers_refines_window_spec:
  "getPageNumbers cur tot = window_spec cur tot 5"
  by (simp add: getPageNumbers_range window_spec_def Let_def ac_simps)

theorem getPageNumbers_refines_window_spec_witness:
  "getPageNumbers 49 50 = [46, 47, 48, 49, 50] \<and> window_spec 49 50 5 = [46, 47, 48, 49, 50]
   \<and> getPageNumbers 1 0 = [] \<and> window_spec 1 0 5 = []"
proof -
  have a: "window_spec 49 50 5 = [46, 47, 48, 49, 50]"
    by (simp add: window_spec_def Let_def upto_rec1)
  have b: "window_spec 1 0 5 = []"
    by (simp add: window_spec_def Let_def)
  from a b getPageNumbers_refines_window_spec [of 49 50]
    getPageNumbers_refines_window_spec [of 1 0]
  show ?thesis by simp
qed

section \<open>Facts about the components\<close>

lemma Math_ceil_div_eq: "Math_ceil_div a b = - (- a div b)"
  unfolding Math_ceil_div_def by (rule ceiling_divide_eq_div)

lemma CommentList_totalPages_eq: "CommentList_totalPages = 50"
  by (simp add: CommentList_totalPages_def Math_ceil_div_eq totalComments_def commentsPerPage_def)

lemma String_of_nonempty: "String_of n \<noteq> []"
  by (simp add: String_of_def digits.simps [of "nat n"])

subsection \<open>Navigation\<close>







subsection \<open>Requests\<close>

lemma PostsList_step_requests:
  "snd (PostsList_step e s) = (if refetches e then [posts_url] else [])"
proof (cases e)
  case Mount
  then show ?thesis by (simp add: fetchPosts_begin_def)
next
  case (User a)
  then show ?thesis
    by (cases a) (simp_all add: PostsList_handleRefresh_def fetchPosts_begin_def)
next
  case (Settle r)
  then show ?thesis by simp
qed

lemma PostsList_run_requests:
  "snd (PostsList_run es s) = replicate (length (filter refetches es)) posts_url"
proof (induction es arbitrary: s)
  case Nil
  then show ?case by simp
next
  case (Cons e es)
  have "snd (PostsList_run (e # es) s)
          = snd (PostsList_step e s) @ snd (PostsList_run es (fst (PostsList_step e s)))"
    by (simp add: split_def Let_def)
  then show ?case
    using Cons.IH [of "fst (PostsList_step e s)"] by (simp add: PostsList_step_requests)
qed

lemma PostsList_handle_allPosts:
  "allPosts (fst (PostsList_handle a s)) = allPosts s"
  by (cases a)
     (simp_all add: PostsList_goToPage_def PostsList_goToPreviousPage_def
        PostsList_goToNextPage_def PostsList_handleRefresh_def fetchPosts_begin_def)

lemma filter_none: "list_all (\<lambda>e. \<not> P e) es \<Longrightarrow> filter P es = []"
  by (induction es) auto

text \<open>
  C4. PostsList issues exactly one request at mount, and any sequence of later events
  that contains no refresh (page navigations and the settling of the pending fetch, in
  any order) issues no further request; the first refresh issues the second one. A page
  navigation leaves \<open>allPosts\<close> as it is, so the visible posts are a new slice of the
  same collection.
\<close>

theorem PostsList_one_fetch_until_refresh:
  assumes "list_all (\<lambda>e. \<not> refetches e) es"
  shows "snd (PostsList_step Mount PostsList_init) = [posts_url]
       \<and> snd (PostsList_run (Mount # es) PostsList_init) = [posts_url]
       \<and> snd (PostsList_run (Mount # es @ [User Refresh]) PostsList_init) = [posts_url, posts_url]
       \<and> (\<forall>a s. a \<noteq> Refresh \<longrightarrow>
            snd (PostsList_handle a s) = [] \<and> allPosts (fst (PostsList_handle a s)) = allPosts s
            \<and> currentPosts (fst (PostsList_handle a s))
                = Array_slice (allPosts s) (indexOfFirstPost (fst (PostsList_handle a s)))
                    (indexOfLastPost (fst (PostsList_handle a s))))"
proof -
  have none: "filter refetches es = []"
    using assms by (rule filter_none)
  have one: "snd (PostsList_step Mount PostsList_init) = [posts_url]"
    by (simp add: fetchPosts_begin_def)
  have run: "snd (PostsList_run (Mount # es) PostsList_init) = [posts_url]"
    by (simp only: PostsList_run_requests) (simp add: none)
  have again: "snd (PostsList_run (Mount # es @ [User Refresh]) PostsList_init)
                 = [posts_url, posts_url]"
    by (simp only: PostsList_run_requests) (simp add: none)
  have nav: "\<forall>a s. a \<noteq> Refresh \<longrightarrow>
            snd (PostsList_handle a s) = [] \<and> allPosts (fst (PostsList_handle a s)) = allPosts s
            \<and> currentPosts (fst (PostsList_handle a s))
                = Array_slice (allPosts s) (indexOfFirstPost (fst (PostsList_handle a s)))
                    (indexOfLastPost (fst (PostsList_handle a s)))"
  proof (intro allI impI)
    fix a :: action and s :: PostsList
    assume "a \<noteq> Refresh"
    then have "snd (PostsList_handle a s) = []"
      by (cases a) simp_all
    then show "snd (PostsList_handle a s) = [] \<and> allPosts (fst (PostsList_handle a s)) = allPosts s
            \<and> currentPosts (fst (PostsList_handle a s))
                = Array_slice (allPosts s) (indexOfFirstPost (fst (PostsList_handle a s)))
                    (indexOfLastPost (fst (PostsList_handle a s)))"
      by (simp add: PostsList_handle_allPosts currentPosts_def)
  qed
  from one run again nav show ?thesis by blast
qed

theorem PostsList_one_fetch_until_refresh_witness:
  "snd (PostsList_run
          [Mount, Settle (Fulfilled \<lparr>ok = True, status = 200, json = Inr []\<rparr>),
           User GoToNextPage, User (GoToPage 2), User GoToPreviousPage]
          PostsList_init) = [posts_url]"
proof -
  have "list_all (\<lambda>e. \<not> refetches e)
          [Settle (Fulfilled \<lparr>ok = True, status = 200, json = Inr ([] :: post list)\<rparr>),
           User GoToNextPage, User (GoToPage 2), User GoToPreviousPage]"
    by simp
  from PostsList_one_fetch_until_refresh [OF this] show ?thesis by simp
qed


subsection \<open>CommentList requests\<close>

lemma fetchComments_begin_page [simp]:
  "CommentList.currentPage (fst (fetchComments_begin p s)) = CommentList.currentPage s"
  by (simp add: fetchComments_begin_def)

lemma fetchComments_begin_requests [simp]:
  "snd (fetchComments_begin p s) = [comments_url ((p - 1) * commentsPerPage) commentsPerPage]"
  by (simp add: fetchComments_begin_def)

lemma CommentList_step_User:
  "CommentList_step (User a) s =
     (if a = Refresh then fetchComments_begin (CommentList.currentPage s) s
      else if CommentList.currentPage (fst (CommentList_handle a s)) \<noteq> CommentList.currentPage s
      then fetchComments_begin (CommentList.currentPage (fst (CommentList_handle a s)))
             (fst (CommentList_handle a s))
      else (fst (CommentList_handle a s), []))"
  by (cases a)
     (simp_all add: CommentList_effect_def CommentList_handleRefresh_def split_def
        fetchComments_begin_def)

text \<open>
  C5, as stated: CommentList issues exactly one request per page-navigation action.
  This fails for a navigation that does not change \<open>currentPage\<close>: after the first
  page has loaded, activating the button of page 1 (the active page, which the
  pagination bar renders enabled) issues no request.
\<close>

theorem CommentList_active_page_no_fetch:
  "Button ''1'' False (GoToPage 1)
     \<in> set (CommentList_render
         (fst (CommentList_run
                 [Mount, Settle (Fulfilled \<lparr>ok = True, status = 200, json = Inr []\<rparr>)]
                 CommentList_init)))
   \<and> \<not> length (snd (CommentList_step (User (GoToPage 1))
         (fst (CommentList_run
                 [Mount, Settle (Fulfilled \<lparr>ok = True, status = 200, json = Inr []\<rparr>)]
                 CommentList_init)))) = 1"
  by (simp add: CommentList_init_def fetchComments_begin_def fetchComments_settle_def
      fetchComments_try_def CommentList_effect_def CommentList_goToPage_def
      CommentList_render_def CommentList_list_view_def CommentList_totalPages_eq
      pagination_def getPageNumbers_range Let_def upto_rec1 String_of_def digits.simps)

text \<open>
  C5, amended. CommentList issues exactly one request at mount, exactly one per refresh
  action and exactly one per page-navigation action that changes \<open>currentPage\<close>; a
  navigation action that leaves \<open>currentPage\<close> unchanged issues none. Every request for
  page \<open>p\<close> carries the offset \<open>(p - 1) * commentsPerPage\<close> and the limit 10 as query
  parameters, where \<open>p\<close> is the page shown after the action; for page 3 the request
  carries offset 20 and limit 10.
\<close>

theorem CommentList_fetch_per_page_change:
  "snd (CommentList_step Mount s)
     = [comments_url ((CommentList.currentPage s - 1) * commentsPerPage) 10]
   \<and> snd (CommentList_step (User a) s)
     = (if a = Refresh
           \<or> CommentList.currentPage (fst (CommentList_step (User a) s)) \<noteq> CommentList.currentPage s
        then [comments_url
                ((CommentList.currentPage (fst (CommentList_step (User a) s)) - 1) * commentsPerPage)
                10]
        else [])
   \<and> snd (fetchComments r p s) = [comments_url ((p - 1) * commentsPerPage) 10]
   \<and> comments_url ((3 - 1) * commentsPerPage) 10
     = ''https://jsonplaceholder.typicode.com/comments?_start=20&_limit=10''"
proof -
  have mount: "snd (CommentList_step Mount s)
     = [comments_url ((CommentList.currentPage s - 1) * commentsPerPage) 10]"
    by (simp add: commentsPerPage_def)
  have user: "snd (CommentList_step (User a) s)
     = (if a = Refresh
           \<or> CommentList.currentPage (fst (CommentList_step (User a) s)) \<noteq> CommentList.currentPage s
        then [comments_url
                ((CommentList.currentPage (fst (CommentList_step (User a) s)) - 1) * commentsPerPage)
                10]
        else [])"
    by (simp del: CommentList_step.simps add: CommentList_step_User commentsPerPage_def)
  have call: "snd (fetchComments r p s) = [comments_url ((p - 1) * commentsPerPage) 10]"
    by (simp add: fetchComments_def split_def commentsPerPage_def)
  have three: "comments_url ((3 - 1) * commentsPerPage) 10
     = ''https://jsonplaceholder.typicode.com/comments?_start=20&_limit=10''"
    by (simp add: comments_url_def commentsPerPage_def String_of_def digits.simps)
  from mount user call three show ?thesis by blast
qed

theorem CommentList_fetch_per_page_change_witness:
  "snd (CommentList_step (User (GoToPage 3)) CommentList_init)
     = [''https://jsonplaceholder.typicode.com/comments?_start=20&_limit=10'']
   \<and> snd (CommentList_step (User (GoToPage 1)) CommentList_init) = []"
proof -
  have p3: "CommentList.currentPage (fst (CommentList_step (User (GoToPage 3)) CommentList_init)) = 3"
    by (simp del: CommentList_step.simps
        add: CommentList_step_User CommentList_goToPage_def CommentList_totalPages_eq
        CommentList_init_def)
  have p1: "CommentList.currentPage (fst (CommentList_step (User (GoToPage 1)) CommentList_init)) = 1"
    by (simp del: CommentList_step.simps
        add: CommentList_step_User CommentList_goToPage_def CommentList_totalPages_eq
        CommentList_init_def)
  have i: "CommentList.currentPage CommentList_init = 1"
    by (simp add: CommentList_init_def)
  have u: "comments_url (2 * commentsPerPage) 10
             = ''https://jsonplaceholder.typicode.com/comments?_start=20&_limit=10''"
    using CommentList_fetch_per_page_change [of CommentList_init Refresh "Rejected ''''" 1] by simp
  have a: "snd (CommentList_step (User (GoToPage 3)) CommentList_init)
     = [''https://jsonplaceholder.typicode.com/comments?_start=20&_limit=10'']"
    using CommentList_fetch_per_page_change [of CommentList_init "GoToPage 3" "Rejected ''''" 1] p3 i u
    by simp
  have b: "snd (CommentList_step (User (GoToPage 1)) CommentList_init) = []"
    using CommentList_fetch_per_page_change [of CommentList_init "GoToPage 1" "Rejected ''''" 1] p1 i
    by simp
  from a b show ?thesis by blast
qed

subsection \<open>Refresh\<close>

text \<open>
  C6. Refresh differs between the two components. In CommentList a successful refresh
  requests the current page again and leaves \<open>currentPage\<close> unchanged; in PostsList a
  successful refresh requests the whole collection again and resets \<open>currentPage\<close> to 1.
\<close>

theorem refresh_asymmetry:
  assumes "ok r" and "json r = Inr data" and "ok r'" and "json r' = Inr data'"
  shows "snd (CommentList_handleRefresh c)
           = [comments_url ((CommentList.currentPage c - 1) * commentsPerPage) commentsPerPage]
       \<and> fetchComments_settle (Fulfilled r) (fst (CommentList_handleRefresh c))
           = c\<lparr>comments := data, CommentList.loading := False, CommentList.error := None\<rparr>
       \<and> CommentList.currentPage
            (fetchComments_settle (Fulfilled r) (fst (CommentList_handleRefresh c)))
           = CommentList.currentPage c
       \<and> snd (PostsList_handleRefresh p) = [posts_url]
       \<and> fetchPosts_settle (Fulfilled r') (fst (PostsList_handleRefresh p))
           = p\<lparr>allPosts := data', PostsList.currentPage := 1, PostsList.loading := False,
               PostsList.error := None\<rparr>
       \<and> PostsList.currentPage
            (fetchPosts_settle (Fulfilled r') (fst (PostsList_handleRefresh p))) = 1"
  using assms
  by (simp add: CommentList_handleRefresh_def fetchComments_begin_def fetchComments_settle_def
      fetchComments_try_def PostsList_handleRefresh_def fetchPosts_begin_def
      fetchPosts_settle_def fetchPosts_try_def)

theorem refresh_asymmetry_witness:
  "fetchComments_settle
     (Fulfilled \<lparr>ok = True, status = 200,
        json = Inr [\<lparr>comment_id = 21, comment_email = ''a@b.c'', comment_body = ''x''\<rparr>]\<rparr>)
     (fst (CommentList_handleRefresh
        \<lparr>comments = [], CommentList.currentPage = 3, CommentList.loading = False,
         CommentList.error = None\<rparr>))
   = \<lparr>comments = [\<lparr>comment_id = 21, comment_email = ''a@b.c'', comment_body = ''x''\<rparr>],
      CommentList.currentPage = 3, CommentList.loading = False, CommentList.error = None\<rparr>
   \<and> fetchPosts_settle
     (Fulfilled \<lparr>ok = True, status = 200,
        json = Inr [\<lparr>post_id = 1, post_title = ''t'', post_body = ''b'', post_userId = 1\<rparr>]\<rparr>)
     (fst (PostsList_handleRefresh
        \<lparr>allPosts = [], PostsList.currentPage = 3, PostsList.loading = False,
         PostsList.error = None\<rparr>))
   = \<lparr>allPosts = [\<lparr>post_id = 1, post_title = ''t'', post_body = ''b'', post_userId = 1\<rparr>],
      PostsList.currentPage = 1, PostsList.loading = False, PostsList.error = None\<rparr>"
proof -
  let ?r = "\<lparr>ok = True, status = 200,
        json = Inr [\<lparr>comment_id = 21, comment_email = ''a@b.c'', comment_body = ''x''\<rparr>]\<rparr>"
  let ?r' = "\<lparr>ok = True, status = 200,
        json = Inr [\<lparr>post_id = 1, post_title = ''t'', post_body = ''b'', post_userId = 1\<rparr>]\<rparr>"
  have "ok ?r" and "json ?r = Inr [\<lparr>comment_id = 21, comment_email = ''a@b.c'', comment_body = ''x''\<rparr>]"
    and "ok ?r'" and "json ?r' = Inr [\<lparr>post_id = 1, post_title = ''t'', post_body = ''b'', post_userId = 1\<rparr>]"
    by simp_all
  from refresh_asymmetry [OF this,
      of "\<lparr>comments = [], CommentList.currentPage = 3, CommentList.loading = False,
           CommentList.error = None\<rparr>"
         "\<lparr>allPosts = [], PostsList.currentPage = 3, PostsList.loading = False,
           PostsList.error = None\<rparr>"]
  show ?thesis by simp
qed

subsection \<open>Rendering\<close>

lemma pagination_plain:
  "\<not> list_ex is_Spinner (pagination c t) \<and> \<not> list_ex is_Alert (pagination c t)"
  by (auto simp: pagination_def Let_def list_ex_iff)

lemma items_plain:
  "\<not> list_ex is_Spinner (map Item xs) \<and> \<not> list_ex is_Alert (map Item xs)"
  by (auto simp: list_ex_iff)

lemma PostsList_list_view_shows:
  "\<not> shows_loading (PostsList_list_view s) \<and> \<not> shows_error (PostsList_list_view s)
   \<and> shows_list (PostsList_list_view s)"
  by (simp add: PostsList_list_view_def shows_loading_def shows_error_def shows_list_def
      pagination_plain items_plain)

lemma CommentList_list_view_shows:
  "\<not> shows_loading (CommentList_list_view s) \<and> \<not> shows_error (CommentList_list_view s)
   \<and> shows_list (CommentList_list_view s)"
  by (simp add: CommentList_list_view_def shows_loading_def shows_error_def shows_list_def
      pagination_plain items_plain)

lemma PostsList_render_views:
  "shows_loading (PostsList_render s) = PostsList.loading s
   \<and> shows_error (PostsList_render s)
       = (\<not> PostsList.loading s \<and> PostsList.error s \<noteq> None \<and> PostsList.error s \<noteq> Some [])
   \<and> shows_list (PostsList_render s)
       = (\<not> PostsList.loading s \<and> (PostsList.error s = None \<or> PostsList.error s = Some []))"
proof (cases "PostsList.loading s")
  case True
  then show ?thesis
    by (simp add: PostsList_render_def shows_loading_def shows_error_def shows_list_def)
next
  case False
  show ?thesis
  proof (cases "PostsList.error s")
    case None
    with False show ?thesis
      using PostsList_list_view_shows [of s] by (simp add: PostsList_render_def)
  next
    case (Some m)
    show ?thesis
    proof (cases "m = []")
      case True
      with False Some show ?thesis
        using PostsList_list_view_shows [of s] by (simp add: PostsList_render_def)
    next
      case nonempty: False
      with False Some show ?thesis
        by (simp add: PostsList_render_def shows_loading_def shows_error_def shows_list_def)
    qed
  qed
qed

lemma CommentList_render_views:
  "shows_loading (CommentList_render s) = CommentList.loading s
   \<and> shows_error (CommentList_render s)
       = (\<not> CommentList.loading s \<and> CommentList.error s \<noteq> None \<and> CommentList.error s \<noteq> Some [])
   \<and> shows_list (CommentList_render s)
       = (\<not> CommentList.loading s \<and> (CommentList.error s = None \<or> CommentList.error s = Some []))"
proof (cases "CommentList.loading s")
  case True
  then show ?thesis
    by (simp add: CommentList_render_def shows_loading_def shows_error_def shows_list_def)
next
  case False
  show ?thesis
  proof (cases "CommentList.error s")
    case None
    with False show ?thesis
      using CommentList_list_view_shows [of s] by (simp add: CommentList_render_def)
  next
    case (Some m)
    show ?thesis
    proof (cases "m = []")
      case True
      with False Some show ?thesis
        using CommentList_list_view_shows [of s] by (simp add: CommentList_render_def)
    next
      case nonempty: False
      with False Some show ?thesis
        by (simp add: CommentList_render_def shows_loading_def shows_error_def shows_list_def)
    qed
  qed
qed

text \<open>
  C7. For every state of a list component, hence for every reachable one, the rendered
  output shows exactly one of the three views (loading indicator, error alert,
  populated list), and list content and an error alert are never rendered together.
\<close>

theorem render_exactly_one_view:
  "active_views (PostsList_render p) = 1
   \<and> \<not> (shows_list (PostsList_render p) \<and> shows_error (PostsList_render p))
   \<and> active_views (CommentList_render c) = 1
   \<and> \<not> (shows_list (CommentList_render c) \<and> shows_error (CommentList_render c))"
proof -
  have p1: "active_views (PostsList_render p) = 1"
    using PostsList_render_views [of p] by (auto simp: active_views_def)
  have p2: "\<not> (shows_list (PostsList_render p) \<and> shows_error (PostsList_render p))"
    using PostsList_render_views [of p] by auto
  have c1: "active_views (CommentList_render c) = 1"
    using CommentList_render_views [of c] by (auto simp: active_views_def)
  have c2: "\<not> (shows_list (CommentList_render c) \<and> shows_error (CommentList_render c))"
    using CommentList_render_views [of c] by auto
  from p1 p2 c1 c2 show ?thesis by blast
qed


theorem render_exactly_one_view_witness:
  "shows_error (PostsList_render (fst (PostsList_run [Mount, Settle (Rejected ''Failed to fetch'')] PostsList_init)))
   \<and> \<not> shows_list (PostsList_render (fst (PostsList_run [Mount, Settle (Rejected ''Failed to fetch'')] PostsList_init)))
   \<and> shows_list (CommentList_render (fst (CommentList_run [Mount, Settle (Fulfilled \<lparr>ok = True, status = 200, json = Inr []\<rparr>)] CommentList_init)))
   \<and> \<not> shows_error (CommentList_render (fst (CommentList_run [Mount, Settle (Fulfilled \<lparr>ok = True, status = 200, json = Inr []\<rparr>)] CommentList_init)))"
proof -
  have a: "shows_error (PostsList_render (fst (PostsList_run [Mount, Settle (Rejected ''Failed to fetch'')] PostsList_init)))"
    by (simp add: PostsList_init_def fetchPosts_begin_def fetchPosts_settle_def fetchPosts_try_def
        PostsList_render_def shows_error_def)
  have b: "shows_list (CommentList_render (fst (CommentList_run [Mount, Settle (Fulfilled \<lparr>ok = True, status = 200, json = Inr []\<rparr>)] CommentList_init)))"
    by (simp add: CommentList_init_def fetchComments_begin_def fetchComments_settle_def
        fetchComments_try_def CommentList_effect_def CommentList_render_def
        CommentList_list_view_def shows_list_def)
  from a b render_exactly_one_view
     [of "fst (PostsList_run [Mount, Settle (Rejected ''Failed to fetch'')] PostsList_init)"
         "fst (CommentList_run [Mount, Settle (Fulfilled \<lparr>ok = True, status = 200, json = Inr []\<rparr>)] CommentList_init)"]
  show ?thesis by blast
qed

subsection \<open>Failed fetches\<close>




lemma fetchPosts_failure:
  "fetchPosts_try r = Inl message \<Longrightarrow>
     fst (fetchPosts r s) = s\<lparr>PostsList.loading := False, PostsList.error := Some message\<rparr>
     \<and> snd (fetchPosts r s) = [posts_url]"
  by (simp add: fetchPosts_def fetchPosts_begin_def fetchPosts_settle_def)

lemma fetchComments_failure:
  "fetchComments_try r = Inl message \<Longrightarrow>
     fst (fetchComments r page s)
       = s\<lparr>CommentList.loading := False, CommentList.error := Some message\<rparr>
     \<and> snd (fetchComments r page s) = [comments_url ((page - 1) * commentsPerPage) commentsPerPage]"
  by (simp add: fetchComments_def fetchComments_begin_def fetchComments_settle_def)





text \<open>
  C10. When a fetch fails (the \<open>try\<close> block throws, for whatever reason), the \<open>catch\<close>
  branch sets only \<open>error\<close> and the \<open>finally\<close> branch only clears \<open>loading\<close>: over the
  whole call the items (\<open>allPosts\<close>, \<open>comments\<close>) and \<open>currentPage\<close> are as before.
\<close>

theorem failed_fetch_keeps_items_and_page:
  assumes "fetchPosts_try r = Inl message" and "fetchComments_try r' = Inl message'"
  shows "fetchPosts_settle r p = p\<lparr>PostsList.error := Some message, PostsList.loading := False\<rparr>
       \<and> allPosts (fst (fetchPosts r p)) = allPosts p
       \<and> PostsList.currentPage (fst (fetchPosts r p)) = PostsList.currentPage p
       \<and> fetchComments_settle r' c
           = c\<lparr>CommentList.error := Some message', CommentList.loading := False\<rparr>
       \<and> comments (fst (fetchComments r' page c)) = comments c
       \<and> CommentList.currentPage (fst (fetchComments r' page c)) = CommentList.currentPage c"
  using assms
  by (simp add: fetchPosts_failure fetchComments_failure fetchPosts_settle_def
      fetchComments_settle_def)

theorem failed_fetch_keeps_items_and_page_witness:
  "fst (fetchPosts (Rejected ''Failed to fetch'')
     \<lparr>allPosts = [\<lparr>post_id = 1, post_title = ''t'', post_body = ''b'', post_userId = 1\<rparr>],
      PostsList.currentPage = 1, PostsList.loading = False, PostsList.error = None\<rparr>)
   = \<lparr>allPosts = [\<lparr>post_id = 1, post_title = ''t'', post_body = ''b'', post_userId = 1\<rparr>],
      PostsList.currentPage = 1, PostsList.loading = False,
      PostsList.error = Some ''Failed to fetch''\<rparr>
   \<and> fetchComments_settle (Fulfilled \<lparr>ok = True, status = 200, json = Inl ''Unexpected token''\<rparr>)
     \<lparr>comments = [\<lparr>comment_id = 11, comment_email = ''a@b.c'', comment_body = ''x''\<rparr>],
      CommentList.currentPage = 2, CommentList.loading = True, CommentList.error = None\<rparr>
   = \<lparr>comments = [\<lparr>comment_id = 11, comment_email = ''a@b.c'', comment_body = ''x''\<rparr>],
      CommentList.currentPage = 2, CommentList.loading = False,
      CommentList.error = Some ''Unexpected token''\<rparr>"
proof -
  have h: "fetchPosts_try (Rejected ''Failed to fetch'') = Inl ''Failed to fetch''"
    by (simp add: fetchPosts_try_def)
  have h': "fetchComments_try
              (Fulfilled \<lparr>ok = True, status = 200, json = Inl ''Unexpected token''\<rparr>)
              = Inl ''Unexpected token''"
    by (simp add: fetchComments_try_def)
  have f: "fst (fetchPosts (Rejected ''Failed to fetch'')
     \<lparr>allPosts = [\<lparr>post_id = 1, post_title = ''t'', post_body = ''b'', post_userId = 1\<rparr>],
      PostsList.currentPage = 1, PostsList.loading = False, PostsList.error = None\<rparr>)
     = fetchPosts_settle (Rejected ''Failed to fetch'')
     \<lparr>allPosts = [\<lparr>post_id = 1, post_title = ''t'', post_body = ''b'', post_userId = 1\<rparr>],
      PostsList.currentPage = 1, PostsList.loading = True, PostsList.error = None\<rparr>"
    by (simp add: fetchPosts_def fetchPosts_begin_def)
  from failed_fetch_keeps_items_and_page [OF h h',
      of "\<lparr>allPosts = [\<lparr>post_id = 1, post_title = ''t'', post_body = ''b'', post_userId = 1\<rparr>],
      PostsList.currentPage = 1, PostsList.loading = True, PostsList.error = None\<rparr>"
      "\<lparr>comments = [\<lparr>comment_id = 11, comment_email = ''a@b.c'', comment_body = ''x''\<rparr>],
      CommentList.currentPage = 2, CommentList.loading = True, CommentList.error = None\<rparr>" 2] f
  show ?thesis by simp
qed

subsection \<open>Counter\<close>

text \<open>
  C9. The counter starts at 0, increment adds exactly 1, reset sets it to 0, and from
  any starting state three increments followed by a reset display 0. The counter is a
  JavaScript number modelled as an unbounded integer; the addition is exact below
  \<open>2 ^ 53\<close>.
\<close>

theorem counter_operations:
  "count App_init = 0
   \<and> count (increment s) = count s + 1
   \<and> count (reset s) = 0
   \<and> display (reset (increment (increment (increment s)))) = ''0''
   \<and> display (reset (increment (increment (increment App_init)))) = ''0''"
  by (simp add: App_init_def increment_def reset_def display_def String_of_def digits.simps)

theorem counter_operations_witness:
  "count (increment \<lparr>count = 41\<rparr>) = 42
   \<and> display (reset (increment (increment (increment \<lparr>count = 41\<rparr>)))) = ''0''"
  using counter_operations [of "\<lparr>count = 41\<rparr>"] by simp

end
